theory Spec2Isabelle
  imports Complex_Main
begin

section \<open>Python builtins used by the exporters\<close>

text \<open>
  A Python \<open>str\<close> is a sequence of Unicode code points. The model covers the code points
  U+0000 to U+00FF, one \<open>char\<close> each, so that \<open>length\<close> counts what Python's \<open>len\<close>
  counts. \<open>isalnum\<close> and \<open>lower_char\<close> are \<open>str.isalnum\<close> and \<open>str.lower\<close> on that range:
  \<open>str.isalnum\<close> follows the Unicode database, so it accepts the letters, digits and
  numeric characters beyond ASCII as well.
\<close>

definition isalnum :: "char \<Rightarrow> bool" where
  "isalnum c = (let n = (of_char c :: nat) in
     (48 \<le> n \<and> n \<le> 57) \<or> (65 \<le> n \<and> n \<le> 90) \<or> (97 \<le> n \<and> n \<le> 122) \<or>
     n \<in> {170, 178, 179, 181, 185, 186, 188, 189, 190} \<or>
     (192 \<le> n \<and> n \<le> 214) \<or> (216 \<le> n \<and> n \<le> 246) \<or> (248 \<le> n \<and> n \<le> 255))"

definition lower_char :: "char \<Rightarrow> char" where
  "lower_char c = (let n = (of_char c :: nat) in
     if (65 \<le> n \<and> n \<le> 90) \<or> (192 \<le> n \<and> n \<le> 214) \<or> (216 \<le> n \<and> n \<le> 222)
     then char_of (n + 32) else c)"

definition lower :: "string \<Rightarrow> string" where
  "lower s = map lower_char s"

text \<open>\<open>str(n)\<close> for an integer: decimal digits, no leading zero, a minus sign when negative.\<close>

definition digit_char :: "nat \<Rightarrow> char" where
  "digit_char d = ''0123456789'' ! d"

fun str_nat :: "nat \<Rightarrow> string" where
  "str_nat n = (if n < 10 then [digit_char n]
                else str_nat (n div 10) @ [digit_char (n mod 10)])"

declare str_nat.simps [simp del]

definition str_int :: "int \<Rightarrow> string" where
  "str_int i = (if i < 0 then CHR ''-'' # str_nat (nat (- i)) else str_nat (nat i))"

text \<open>\<open>int(x)\<close> on a float truncates toward zero. \<open>time.time()\<close> is modelled as a real.\<close>

definition py_int :: "real \<Rightarrow> int" where
  "py_int x = (if x < 0 then \<lceil>x\<rceil> else \<lfloor>x\<rfloor>)"

text \<open>The number that a string of decimal digits denotes, the inverse of \<open>str_nat\<close>.\<close>

definition digit_val :: "char \<Rightarrow> nat" where
  "digit_val c = of_char c - 48"

definition digits_val :: "string \<Rightarrow> nat" where
  "digits_val s = foldl (\<lambda>a c. 10 * a + digit_val c) 0 s"


section \<open>Data model\<close>

text \<open>
  A space as \<open>get_all_spaces\<close> returns it. \<open>space['key']\<close> and \<open>space['type']\<close> are read
  unconditionally, \<open>name\<close> and \<open>status\<close> through \<open>space.get\<close> with a default.
\<close>

record space =
  key :: string
  name :: "string option"
  type :: string
  status :: "string option"

type_synonym cache = "string \<rightharpoonup> string"

text \<open>The fields of the exporter object that \<open>export_space\<close> reads and writes.\<close>

record exporter =
  output_dir :: string
  export_cache :: cache

text \<open>What a call of the remote client does: it raises, or it returns a value.\<close>

datatype 'a reply = Raises | Returns 'a

text \<open>
  The \<open>content-length\<close> header of a response: absent, an integer, or text that \<open>int\<close>
  rejects with a \<open>ValueError\<close>.
\<close>

datatype content_length = NoHeader | Size int | Malformed

text \<open>
  One download attempt, as the environment answers it: a network-level error or timeout
  (\<open>aiohttp.ClientError\<close>, \<open>asyncio.TimeoutError\<close>, a \<open>requests\<close> exception), raised by
  the request or while the body is read; any other exception (the output file cannot be
  opened or written); or a response with its status, its \<open>content-length\<close> header and the
  lengths of the chunks its body is delivered in.
\<close>

datatype fetch = NetError | OtherError | Response int content_length "nat list"

text \<open>
  The environment of one task: the clock, the answer of \<open>get_space_export\<close>, and the
  answer to each download attempt (numbered from 0).
\<close>

record task_env =
  now :: real
  export_reply :: "string option reply"
  fetches :: "nat \<Rightarrow> fetch"

text \<open>The effects of a task that are visible outside it, in the order they happen.\<close>

datatype event = ExportRequest string | Get string | Sleep nat | SaveCache

type_synonym outcome = "bool \<times> string \<times> string option"

type_synonym task_run = "outcome \<times> exporter \<times> event list"


section \<open>The export task\<close>

text \<open>\<open>f"{space_key}_{int(time.time() / (3600 * 24))}"\<close>\<close>

definition cache_key :: "string \<Rightarrow> real \<Rightarrow> string" where
  "cache_key space_key t = space_key @ ''_'' @ str_int (py_int (t / (3600 * 24)))"

text \<open>\<open>"".join([c if c.isalnum() or c in "._- " else "_" for c in space_name])\<close>\<close>

definition safe_name :: "string \<Rightarrow> string" where
  "safe_name space_name =
     map (\<lambda>c. if isalnum c \<or> c \<in> set ''._- '' then c else CHR ''_'') space_name"

text \<open>\<open>f"{space_key}_{safe_name}.html.zip"\<close>\<close>

definition output_filename :: "string \<Rightarrow> string \<Rightarrow> string" where
  "output_filename space_key space_name = space_key @ ''_'' @ safe_name space_name @ ''.html.zip''"

text \<open>
  \<open>str(self.output_dir / filename)\<close>, for a directory string in \<open>pathlib\<close>'s normal form and
  a relative file name.
\<close>

definition output_file :: "exporter \<Rightarrow> string \<Rightarrow> string \<Rightarrow> string" where
  "output_file self space_key space_name =
     output_dir self @ ''/'' @ output_filename space_key space_name"

definition space_name_of :: "space \<Rightarrow> string" where
  "space_name_of sp = (case name sp of None \<Rightarrow> key sp | Some n \<Rightarrow> n)"

definition max_retries :: nat where
  "max_retries = 3"

text \<open>\<open>int(response.headers.get('content-length', 0))\<close>, for a header that parses.\<close>

definition total_size :: "content_length \<Rightarrow> int" where
  "total_size cl = (case cl of Size n \<Rightarrow> n | _ \<Rightarrow> 0)"

text \<open>The loop over the chunks: an empty chunk is skipped, the others are counted.\<close>

definition downloaded :: "nat list \<Rightarrow> nat" where
  "downloaded chunks = sum_list (filter (\<lambda>n. n \<noteq> 0) chunks)"

definition failure :: "exporter \<Rightarrow> string \<Rightarrow> event list \<Rightarrow> task_run" where
  "failure self space_key evs = ((False, space_key, None), self, evs)"

text \<open>
  The successful end of both exporters: the cache entry is set, \<open>_save_cache\<close> is called
  (a failure to write the file is caught there and only logged), and the path is returned.
\<close>

definition commit :: "exporter \<Rightarrow> string \<Rightarrow> string \<Rightarrow> string \<Rightarrow> event list \<Rightarrow> task_run" where
  "commit self space_key ck path evs =
     ((True, space_key, Some path),
      self\<lparr>export_cache := (export_cache self)(ck \<mapsto> path)\<rparr>,
      evs @ [SaveCache])"

text \<open>
  The \<open>while retry_count < max_retries\<close> loop of the asynchronous exporter. Every pass
  that does not return adds one to \<open>retry_count\<close>, so pass number \<open>retry_count\<close> makes
  download attempt number \<open>retry_count\<close>. \<open>evs\<close> are the events so far.
\<close>

function download_loop ::
  "exporter \<Rightarrow> task_env \<Rightarrow> string \<Rightarrow> string \<Rightarrow> string \<Rightarrow> string \<Rightarrow> nat \<Rightarrow> event list \<Rightarrow> task_run"
where
  "download_loop self env space_key ck url path retry_count evs =
     (if retry_count < max_retries then
        (let evs1 = evs @ [Get url];
             rc = retry_count + 1
         in case fetches env retry_count of
              NetError \<Rightarrow>
                if rc < max_retries
                then download_loop self env space_key ck url path rc (evs1 @ [Sleep (5 * 2 ^ rc)])
                else failure self space_key evs1
            | OtherError \<Rightarrow> failure self space_key evs1
            | Response st cl chunks \<Rightarrow>
                if st \<noteq> 200 then
                  if rc < max_retries
                  then download_loop self env space_key ck url path rc (evs1 @ [Sleep (5 * 2 ^ rc)])
                  else failure self space_key evs1
                else if cl = Malformed then failure self space_key evs1
                else if total_size cl > 0 \<and> int (downloaded chunks) < total_size cl then
                  if rc < max_retries
                  then download_loop self env space_key ck url path rc (evs1 @ [Sleep (5 * 2 ^ rc)])
                  else failure self space_key evs1
                else commit self space_key ck path evs1)
      else failure self space_key evs)"
  by pat_completeness auto
termination
  by (relation "measure (\<lambda>(self, env, space_key, ck, url, path, retry_count, evs).
        max_retries - retry_count)") auto

declare download_loop.simps [simp del]

text \<open>
  \<open>ConfluenceAsyncExporter.export_space\<close>. \<open>not export_url\<close> holds for \<open>None\<close> and for
  the empty string.
\<close>

definition export_space_async :: "exporter \<Rightarrow> task_env \<Rightarrow> space \<Rightarrow> task_run" where
  "export_space_async self env sp =
     (let space_key = key sp;
          space_name = space_name_of sp;
          ck = cache_key space_key (now env)
      in case export_cache self ck of
           Some p \<Rightarrow> ((True, space_key, Some p), self, [])
         | None \<Rightarrow>
             (case export_reply env of
                Raises \<Rightarrow> failure self space_key [ExportRequest space_key]
              | Returns None \<Rightarrow> failure self space_key [ExportRequest space_key]
              | Returns (Some export_url) \<Rightarrow>
                  if export_url = [] then failure self space_key [ExportRequest space_key]
                  else download_loop self env space_key ck export_url
                         (output_file self space_key space_name) 0 [ExportRequest space_key]))"

text \<open>
  \<open>ConfluenceExporter.export_space\<close>: one \<open>requests.get\<close>, whose status and headers are
  never read; the body is written and the cache entry set whatever they are. Every
  exception ends in the one \<open>except Exception\<close>.
\<close>

definition export_space :: "exporter \<Rightarrow> task_env \<Rightarrow> space \<Rightarrow> task_run" where
  "export_space self env sp =
     (let space_key = key sp;
          space_name = space_name_of sp;
          ck = cache_key space_key (now env)
      in case export_cache self ck of
           Some p \<Rightarrow> ((True, space_key, Some p), self, [])
         | None \<Rightarrow>
             (case export_reply env of
                Raises \<Rightarrow> failure self space_key [ExportRequest space_key]
              | Returns None \<Rightarrow> failure self space_key [ExportRequest space_key]
              | Returns (Some export_url) \<Rightarrow>
                  if export_url = [] then failure self space_key [ExportRequest space_key]
                  else (case fetches env 0 of
                          Response st cl chunks \<Rightarrow>
                            commit self space_key ck (output_file self space_key space_name)
                              [ExportRequest space_key, Get export_url]
                        | _ \<Rightarrow> failure self space_key
                                 [ExportRequest space_key, Get export_url])))"


section \<open>Work discovery and the run\<close>

text \<open>\<open>if specific_spaces:\<close> holds for a list that is given and not empty.\<close>

definition allow_list :: "string list option \<Rightarrow> string list" where
  "allow_list specific_spaces = (case specific_spaces of None \<Rightarrow> [] | Some ks \<Rightarrow> ks)"

definition is_personal :: "space \<Rightarrow> bool" where
  "is_personal sp = (lower (type sp) = ''personal'')"

definition is_archived :: "space \<Rightarrow> bool" where
  "is_archived sp = (lower (case status sp of None \<Rightarrow> [] | Some x \<Rightarrow> x) = ''archived'')"

text \<open>
  The filter of \<open>export_all_spaces\<close> (the same text in both exporters), applied to
  \<open>all_spaces\<close>, the inventory that the paging loop has collected.
\<close>

definition spaces_to_export ::
  "bool \<Rightarrow> bool \<Rightarrow> string list option \<Rightarrow> space list \<Rightarrow> space list"
where
  "spaces_to_export include_personal include_archived specific_spaces all_spaces =
     (if allow_list specific_spaces \<noteq> []
      then filter (\<lambda>s. key s \<in> set (allow_list specific_spaces)) all_spaces
      else filter (\<lambda>s. \<not> (is_personal s \<and> \<not> include_personal) \<and>
                         \<not> (is_archived s \<and> \<not> include_archived)) all_spaces)"

text \<open>What waiting for a submitted task gives: its return value, or an exception.\<close>

datatype task_result = Returned outcome | Raised

text \<open>
  The loop over the completed futures of \<open>ConfluenceExporter.export_all_spaces\<close>, each
  paired with its space through \<open>future_to_space\<close>; the accumulator holds
  \<open>successful_exports\<close> and \<open>failed_spaces\<close>.
\<close>

fun aggregate :: "(space \<times> task_result) list \<Rightarrow> nat \<times> string list \<Rightarrow> nat \<times> string list" where
  "aggregate [] acc = acc"
| "aggregate ((sp, Returned (success, space_key, file_path)) # rest) (successful_exports, failed_spaces) =
     (if success then aggregate rest (successful_exports + 1, failed_spaces)
      else aggregate rest (successful_exports, failed_spaces @ [space_key]))"
| "aggregate ((sp, Raised) # rest) (successful_exports, failed_spaces) =
     aggregate rest (successful_exports, failed_spaces @ [key sp])"

text \<open>
  The same loop in \<open>ConfluenceAsyncExporter.export_all_spaces\<close>: its handler logs the
  exception and does nothing else.
\<close>

fun aggregate_async :: "task_result list \<Rightarrow> nat \<times> string list \<Rightarrow> nat \<times> string list" where
  "aggregate_async [] acc = acc"
| "aggregate_async (Returned (success, space_key, file_path) # rest) (successful_exports, failed_spaces) =
     (if success then aggregate_async rest (successful_exports + 1, failed_spaces)
      else aggregate_async rest (successful_exports, failed_spaces @ [space_key]))"
| "aggregate_async (Raised # rest) (successful_exports, failed_spaces) =
     aggregate_async rest (successful_exports, failed_spaces)"

text \<open>
  The submitted tasks, run one after the other in the order of submission, each in the
  environment \<open>world\<close> gives its space: the schedule of a single worker. The exporter
  object is shared, so each task sees the cache the earlier ones left.
\<close>

fun run_tasks ::
  "(exporter \<Rightarrow> task_env \<Rightarrow> space \<Rightarrow> task_run) \<Rightarrow> exporter \<Rightarrow> (space \<Rightarrow> task_env) \<Rightarrow>
   space list \<Rightarrow> (space \<times> task_result) list \<times> exporter \<times> event list"
where
  "run_tasks task self world [] = ([], self, [])"
| "run_tasks task self world (sp # rest) =
     (case task self (world sp) sp of
        (res, self1, evs1) \<Rightarrow>
          (case run_tasks task self1 world rest of
             (results, self2, evs2) \<Rightarrow> ((sp, Returned res) # results, self2, evs1 @ evs2)))"

type_synonym run = "(nat \<times> string list) \<times> exporter \<times> event list"

text \<open>\<open>ConfluenceExporter.export_all_spaces\<close>, from the collected inventory on.\<close>

definition export_all_spaces ::
  "exporter \<Rightarrow> (space \<Rightarrow> task_env) \<Rightarrow> bool \<Rightarrow> bool \<Rightarrow> string list option \<Rightarrow> space list \<Rightarrow> run"
where
  "export_all_spaces self world include_personal include_archived specific_spaces all_spaces =
     (let todo = spaces_to_export include_personal include_archived specific_spaces all_spaces
      in if todo = [] then ((0, []), self, [])
         else (case run_tasks export_space self world todo of
                 (results, self1, evs) \<Rightarrow> (aggregate results (0, []), self1, evs)))"

text \<open>\<open>ConfluenceAsyncExporter.export_all_spaces\<close>, from the collected inventory on.\<close>

definition export_all_spaces_async ::
  "exporter \<Rightarrow> (space \<Rightarrow> task_env) \<Rightarrow> bool \<Rightarrow> bool \<Rightarrow> string list option \<Rightarrow> space list \<Rightarrow> run"
where
  "export_all_spaces_async self world include_personal include_archived specific_spaces all_spaces =
     (let todo = spaces_to_export include_personal include_archived specific_spaces all_spaces
      in if todo = [] then ((0, []), self, [])
         else (case run_tasks export_space_async self world todo of
                 (results, self1, evs) \<Rightarrow> (aggregate_async (map snd results) (0, []), self1, evs)))"

text \<open>
  The end of \<open>main\<close> and of \<open>main_async\<close>, once the exporter exists: \<open>args_spaces\<close> is
  the \<open>--spaces\<close> option, and the value is the exit code \<open>0 if not failed else 1\<close>.
\<close>

definition exit_code :: "run \<Rightarrow> int" where
  "exit_code r = (case r of ((successful, failed), rest) \<Rightarrow> if failed = [] then 0 else 1)"

definition main ::
  "exporter \<Rightarrow> (space \<Rightarrow> task_env) \<Rightarrow> string list option \<Rightarrow> bool \<Rightarrow> bool \<Rightarrow> space list \<Rightarrow> int"
where
  "main self world args_spaces include_personal include_archived all_spaces =
     exit_code (if allow_list args_spaces \<noteq> []
                then export_all_spaces self world False False args_spaces all_spaces
                else export_all_spaces self world include_personal include_archived None all_spaces)"

definition main_async ::
  "exporter \<Rightarrow> (space \<Rightarrow> task_env) \<Rightarrow> string list option \<Rightarrow> bool \<Rightarrow> bool \<Rightarrow> space list \<Rightarrow> int"
where
  "main_async self world args_spaces include_personal include_archived all_spaces =
     exit_code (if allow_list args_spaces \<noteq> []
                then export_all_spaces_async self world False False args_spaces all_spaces
                else export_all_spaces_async self world include_personal include_archived None
                       all_spaces)"


section \<open>Predicates of the specification\<close>

text \<open>
  A transient attempt failure: a network error or timeout, a status other than 200, or
  a body shorter than the size the response declares.
\<close>

definition incomplete :: "content_length \<Rightarrow> nat list \<Rightarrow> bool" where
  "incomplete cl chunks = (case cl of Size n \<Rightarrow> int (downloaded chunks) < n | _ \<Rightarrow> False)"

definition transient :: "fetch \<Rightarrow> bool" where
  "transient f = (case f of
      NetError \<Rightarrow> True
    | OtherError \<Rightarrow> False
    | Response st cl chunks \<Rightarrow> st \<noteq> 200 \<or> incomplete cl chunks)"

text \<open>A clean attempt: status 200, and no declared size that the body falls short of.\<close>

definition clean :: "fetch \<Rightarrow> bool" where
  "clean f = (case f of
      Response st cl chunks \<Rightarrow> st = 200 \<and> cl \<noteq> Malformed \<and> \<not> incomplete cl chunks
    | _ \<Rightarrow> False)"

text \<open>
  The character class of the specification, \<open>[A-Za-z0-9._- ]\<close>, and the ASCII range.
\<close>

definition spec_class :: "char \<Rightarrow> bool" where
  "spec_class c = (let n = (of_char c :: nat) in
     (48 \<le> n \<and> n \<le> 57) \<or> (65 \<le> n \<and> n \<le> 90) \<or> (97 \<le> n \<and> n \<le> 122) \<or>
     c \<in> set ''._- '')"

definition ascii :: "char \<Rightarrow> bool" where
  "ascii c = ((of_char c :: nat) < 128)"


section \<open>Example inputs\<close>

text \<open>
  The three spaces of the specification's filtering example, an exporter with an empty
  cache and one whose cache holds today's entry for space A, and environments whose
  download attempts are answered by a given sequence.
\<close>

definition space_A :: space where
  "space_A = \<lparr>key = ''A'', name = Some ''Alpha'', type = ''global'', status = Some ''current''\<rparr>"
definition space_B :: space where
  "space_B = \<lparr>key = ''B'', name = Some ''Beta'', type = ''personal'', status = Some ''current''\<rparr>"
definition space_C :: space where
  "space_C = \<lparr>key = ''C'', name = Some ''Gamma'', type = ''global'', status = Some ''archived''\<rparr>"

definition example_name :: string where
  "example_name = ''My/Space: '' @ [CHR 0x22] @ ''2024'' @ [CHR 0x22]"

definition example_url :: string where
  "example_url = ''https://wiki.example.org/download/export/A.zip''"

definition example_exporter :: exporter where
  "example_exporter = \<lparr>output_dir = ''confluence_export'', export_cache = Map.empty\<rparr>"

definition example_env :: "(nat \<Rightarrow> fetch) \<Rightarrow> task_env" where
  "example_env fs = \<lparr>now = 1762250000, export_reply = Returns (Some example_url), fetches = fs\<rparr>"

definition third_time_lucky :: "nat \<Rightarrow> fetch" where
  "third_time_lucky i =
     (if i = 0 then NetError
      else if i = 1 then Response 503 NoHeader []
      else Response 200 (Size 1000) [500, 500])"

definition always_short :: "nat \<Rightarrow> fetch" where
  "always_short i = Response 200 (Size 1000) [500]"

definition example_path :: string where
  "example_path = ''confluence_export/A_Alpha.html.zip''"

definition first_time_ok :: "nat \<Rightarrow> fetch" where
  "first_time_ok i = Response 200 (Size 1000) [500, 0, 500]"

definition cached_exporter :: exporter where
  "cached_exporter = \<lparr>output_dir = ''confluence_export'',
                       export_cache = [''A_20396'' \<mapsto> ''confluence_export/A_Alpha.html.zip'']\<rparr>"


section \<open>The cache fingerprint\<close>

lemma digit_val_digit_char: "d < 10 \<Longrightarrow> digit_val (digit_char d) = d"
proof -
  assume "d < 10"
  then have "d \<in> {0,1,2,3,4,5,6,7,8,9}" by auto
  then show ?thesis by (auto simp: digit_val_def digit_char_def)
qed

lemma digits_val_snoc: "digits_val (s @ [c]) = 10 * digits_val s + digit_val c"
  by (simp add: digits_val_def)

lemma digits_val_str_nat: "digits_val (str_nat n) = n"
proof (induction n rule: str_nat.induct)
  case (1 n)
  show ?case
  proof (cases "n < 10")
    case True
    then show ?thesis
      by (subst str_nat.simps) (simp add: digits_val_def digit_val_digit_char)
  next
    case False
    have "digits_val (str_nat n) = 10 * digits_val (str_nat (n div 10)) + digit_val (digit_char (n mod 10))"
      using False by (subst str_nat.simps) (simp add: digits_val_snoc)
    also have "\<dots> = 10 * (n div 10) + n mod 10"
      using 1 False by (simp add: digit_val_digit_char)
    finally show ?thesis by simp
  qed
qed

lemma str_nat_inj: "str_nat m = str_nat n \<Longrightarrow> m = n"
  by (metis digits_val_str_nat)

lemma str_int_nonneg_inj: "0 \<le> i \<Longrightarrow> 0 \<le> j \<Longrightarrow> str_int i = str_int j \<Longrightarrow> i = j"
  by (auto simp: str_int_def dest!: str_nat_inj)

lemma py_int_nonneg: "0 \<le> x \<Longrightarrow> py_int x = \<lfloor>x\<rfloor>"
  by (simp add: py_int_def)

lemma str_nat_small: "n < 10 \<Longrightarrow> str_nat n = [digit_char n]"
  by (simp add: str_nat.simps)

lemma str_nat_large: "\<not> n < 10 \<Longrightarrow> str_nat n = str_nat (n div 10) @ [digit_char (n mod 10)]"
  by (subst str_nat.simps) simp

lemmas str_eval = str_int_def str_nat_small str_nat_large digit_char_def

text \<open>
  Claim C9. For a clock value \<open>t \<ge> 0\<close> the fingerprint is the key, an underscore and
  the decimal text of \<open>\<lfloor>t / 86400\<rfloor>\<close>; for one key, two non-negative clock values give
  the same fingerprint exactly when they lie in the same bucket of 86400 seconds.
\<close>

theorem cache_key_bucket:
  assumes "0 \<le> t" and "0 \<le> t'"
  shows "cache_key k t = k @ ''_'' @ str_int \<lfloor>t / 86400\<rfloor> \<and>
         (cache_key k t = cache_key k t' \<longleftrightarrow> \<lfloor>t / 86400\<rfloor> = \<lfloor>t' / 86400\<rfloor>)"
proof -
  have a: "py_int (t / (3600 * 24)) = \<lfloor>t / 86400\<rfloor>"
    using assms(1) by (simp add: py_int_nonneg)
  have b: "py_int (t' / (3600 * 24)) = \<lfloor>t' / 86400\<rfloor>"
    using assms(2) by (simp add: py_int_nonneg)
  have c: "0 \<le> \<lfloor>t / 86400\<rfloor>" "0 \<le> \<lfloor>t' / 86400\<rfloor>"
    using assms by simp_all
  have d: "str_int \<lfloor>t / 86400\<rfloor> = str_int \<lfloor>t' / 86400\<rfloor> \<longleftrightarrow>
           \<lfloor>t / 86400\<rfloor> = \<lfloor>t' / 86400\<rfloor>"
    using str_int_nonneg_inj [OF c] by auto
  have e: "cache_key k t = k @ ''_'' @ str_int \<lfloor>t / 86400\<rfloor>"
    by (simp only: cache_key_def a)
  have f: "cache_key k t' = k @ ''_'' @ str_int \<lfloor>t' / 86400\<rfloor>"
    by (simp only: cache_key_def b)
  show ?thesis
    using d by (simp add: e f)
qed

theorem cache_key_bucket_witness:
  "(0::real) \<le> 1762250000 \<and> (0::real) \<le> 1762300800 \<and>
   cache_key ''DOCS'' 1762250000 = ''DOCS_20396'' \<and>
   cache_key ''DOCS'' 1762250000 \<noteq> cache_key ''DOCS'' 1762300800"
  using cache_key_bucket [of 1762250000 1762300800 "''DOCS''"]
  by (simp add: cache_key_def py_int_def str_eval)


section \<open>The example inputs, evaluated\<close>

lemma example_env_sel:
  "now (example_env fs) = 1762250000"
  "export_reply (example_env fs) = Returns (Some example_url)"
  "fetches (example_env fs) = fs"
  by (simp_all add: example_env_def)

lemma example_exporter_sel:
  "output_dir example_exporter = ''confluence_export''"
  "export_cache example_exporter = Map.empty"
  by (simp_all add: example_exporter_def)

lemma space_A_sel: "key space_A = ''A''" "space_name_of space_A = ''Alpha''"
  by (simp_all add: space_A_def space_name_of_def)

lemma example_url_nonempty: "example_url \<noteq> []"
  by (simp add: example_url_def)

lemma example_cache_key: "cache_key ''A'' 1762250000 = ''A_20396''"
  by (simp add: cache_key_def py_int_def str_eval)

lemma example_output_file: "output_file example_exporter ''A'' ''Alpha'' = example_path"
  by (simp add: output_file_def output_filename_def safe_name_def isalnum_def
      example_exporter_def example_path_def)

lemmas example_eval = example_env_sel example_exporter_sel space_A_sel example_url_nonempty
  example_cache_key example_output_file

lemma third_time_lucky_class:
  "transient (third_time_lucky 0)" "transient (third_time_lucky 1)" "clean (third_time_lucky 2)"
  by (simp_all add: third_time_lucky_def transient_def clean_def incomplete_def downloaded_def)

lemma always_short_class: "transient (always_short i)"
  by (simp add: always_short_def transient_def incomplete_def downloaded_def)


section \<open>The output file name\<close>

lemma isalnum_ascii: "isalnum c \<Longrightarrow> ascii c \<Longrightarrow> spec_class c"
  by (auto simp: isalnum_def ascii_def spec_class_def Let_def)

lemma spec_class_kept: "spec_class c \<Longrightarrow> isalnum c \<or> c \<in> set ''._- ''"
  by (auto simp: isalnum_def spec_class_def Let_def)

lemma safe_name_length: "length (safe_name nm) = length nm"
  by (simp add: safe_name_def)

lemma safe_name_nth:
  "i < length nm \<Longrightarrow> safe_name nm ! i =
      (if isalnum (nm ! i) \<or> nm ! i \<in> set ''._- '' then nm ! i else CHR ''_'')"
  by (simp only: safe_name_def nth_map)

lemma safe_name_kept: "c \<in> set (safe_name nm) \<Longrightarrow> isalnum c \<or> c \<in> set ''._- ''"
  by (auto simp: safe_name_def)

lemma safe_name_ascii: "c \<in> set (safe_name nm) \<Longrightarrow> ascii c \<Longrightarrow> spec_class c"
proof -
  assume "c \<in> set (safe_name nm)" and a: "ascii c"
  then have "isalnum c \<or> c \<in> set ''._- ''" by (simp only: safe_name_kept)
  then show "spec_class c"
  proof
    assume "isalnum c" with a show ?thesis by (simp add: isalnum_ascii)
  next
    assume "c \<in> set ''._- ''" then show ?thesis by (auto simp: spec_class_def)
  qed
qed

text \<open>
  Claim C8, as stated, fails: \<open>str.isalnum\<close> is true of the letter U+00E9, so a name
  that holds it keeps it, and it lies outside \<open>[A-Za-z0-9._- ]\<close>.
\<close>

theorem safe_name_counterexample:
  "safe_name [CHR 0xE9] = [CHR 0xE9] \<and> \<not> spec_class (CHR 0xE9)"
  by (simp add: safe_name_def isalnum_def spec_class_def)

text \<open>
  Claim C8, amended. The sanitized name has the length of the name; position by position
  it keeps a character that \<open>str.isalnum\<close> accepts or that is one of \<open>. _ -\<close> and the
  space, and has an underscore in place of any other; every ASCII character of it lies in
  \<open>[A-Za-z0-9._- ]\<close>; and the file name is the key, an underscore, the sanitized name
  and \<open>.html.zip\<close>.
\<close>

theorem safe_name_sanitized:
  "length (safe_name nm) = length nm \<and>
   (\<forall>i < length nm. safe_name nm ! i =
      (if isalnum (nm ! i) \<or> nm ! i \<in> set ''._- '' then nm ! i else CHR ''_'')) \<and>
   (\<forall>c \<in> set (safe_name nm). ascii c \<longrightarrow> spec_class c) \<and>
   output_filename k nm = k @ ''_'' @ safe_name nm @ ''.html.zip''"
proof (intro conjI allI impI ballI)
  show "length (safe_name nm) = length nm" by (rule safe_name_length)
next
  fix i assume "i < length nm"
  then show "safe_name nm ! i =
      (if isalnum (nm ! i) \<or> nm ! i \<in> set ''._- '' then nm ! i else CHR ''_'')"
    by (rule safe_name_nth)
next
  fix c assume "c \<in> set (safe_name nm)" and "ascii c"
  then show "spec_class c" by (rule safe_name_ascii)
next
  show "output_filename k nm = k @ ''_'' @ safe_name nm @ ''.html.zip''"
    by (simp only: output_filename_def)
qed

theorem safe_name_sanitized_witness:
  "safe_name example_name = ''My_Space_ _2024_'' \<and>
   length (safe_name example_name) = length example_name \<and>
   CHR ''_'' \<in> set (safe_name example_name) \<and> ascii (CHR ''_'') \<and> spec_class (CHR ''_'') \<and>
   output_filename ''DOCS'' example_name = ''DOCS_My_Space_ _2024_.html.zip''"
proof -
  have e: "safe_name example_name = ''My_Space_ _2024_''"
    by (simp add: example_name_def safe_name_def isalnum_def)
  have f: "''DOCS'' @ ''_'' @ ''My_Space_ _2024_'' @ ''.html.zip'' = ''DOCS_My_Space_ _2024_.html.zip''"
    by simp
  have m: "CHR ''_'' \<in> set (safe_name example_name)"
    by (simp add: e)
  have a: "ascii (CHR ''_'')"
    by (simp add: ascii_def)
  note t = safe_name_sanitized [of example_name "''DOCS''"]
  from t have 1: "length (safe_name example_name) = length example_name" by (rule conjunct1)
  from t have "\<forall>c \<in> set (safe_name example_name). ascii c \<longrightarrow> spec_class c"
    by (elim conjE)
  with m a have 2: "spec_class (CHR ''_'')" by blast
  from t have "output_filename ''DOCS'' example_name = ''DOCS'' @ ''_'' @ safe_name example_name @ ''.html.zip''"
    by (elim conjE)
  then have 3: "output_filename ''DOCS'' example_name = ''DOCS_My_Space_ _2024_.html.zip''"
    by (simp only: e f)
  from e 1 m a 2 3 show ?thesis by (intro conjI)
qed


section \<open>The cache check\<close>

text \<open>
  Claim C7. When the cache holds the fingerprint of the space, both exporters return
  success with the cached path, leave the exporter as it is, and make no request, no
  download and no write of the cache file.
\<close>

theorem cache_hit:
  assumes "export_cache self (cache_key (key sp) (now env)) = Some p"
  shows "export_space self env sp = ((True, key sp, Some p), self, []) \<and>
         export_space_async self env sp = ((True, key sp, Some p), self, [])"
  using assms by (simp add: export_space_def export_space_async_def)

theorem cache_hit_witness:
  "export_cache cached_exporter (cache_key (key space_A) (now (example_env third_time_lucky))) =
     Some example_path \<and>
   export_space cached_exporter (example_env third_time_lucky) space_A =
     ((True, ''A'', Some example_path), cached_exporter, []) \<and>
   export_space_async cached_exporter (example_env third_time_lucky) space_A =
     ((True, ''A'', Some example_path), cached_exporter, [])"
proof -
  have h: "export_cache cached_exporter (cache_key (key space_A) (now (example_env third_time_lucky))) =
     Some example_path"
    by (simp add: space_A_def example_env_def example_cache_key cached_exporter_def example_path_def)
  from h cache_hit [OF h] show ?thesis by (simp add: space_A_def)
qed


text \<open>
  How the fingerprint gets into the cache: a task that succeeds leaves the path it
  returns under the fingerprint, so running the task again with that cache, at a clock
  value of the same bucket, is a cache hit with the same path and no effect.
\<close>

lemma download_loop_result:
  "\<exists>evs'. download_loop self env k ck url path retry_count evs = failure self k evs' \<or>
          download_loop self env k ck url path retry_count evs = commit self k ck path evs'"
proof (induction self env k ck url path retry_count evs rule: download_loop.induct)
  case (1 self env k ck url path retry_count evs)
  note eq = download_loop.simps [of self env k ck url path retry_count evs]
  show ?case
  proof (cases "retry_count < max_retries")
    case False
    then show ?thesis by (auto simp add: eq)
  next
    case True
    note lt = this
    show ?thesis
    proof (cases "fetches env retry_count")
      case NetError
      with lt "1.IH"(1) [OF lt refl refl NetError] show ?thesis
        by (auto simp add: eq Let_def)
    next
      case OtherError
      with lt show ?thesis by (auto simp add: eq Let_def)
    next
      case (Response st cl chunks)
      show ?thesis
      proof (cases "st \<noteq> 200")
        case True
        with lt Response "1.IH"(2) [OF lt refl refl Response True] show ?thesis
          by (auto simp add: eq Let_def)
      next
        case False
        note ok = this
        show ?thesis
        proof (cases "cl = Malformed")
          case True
          with lt Response ok show ?thesis by (auto simp add: eq Let_def)
        next
          case False
          note nm = this
          show ?thesis
          proof (cases "total_size cl > 0 \<and> int (downloaded chunks) < total_size cl")
            case True
            with lt Response ok nm "1.IH"(3) [OF lt refl refl Response ok nm True] show ?thesis
              by (auto simp add: eq Let_def)
          next
            case False
            with lt Response ok nm show ?thesis by (auto simp add: eq Let_def)
          qed
        qed
      qed
    qed
  qed
qed

lemma download_loop_success:
  assumes "fst (fst (download_loop self env k ck url path retry_count evs))"
  shows "snd (snd (fst (download_loop self env k ck url path retry_count evs))) = Some path \<and>
   export_cache (fst (snd (download_loop self env k ck url path retry_count evs))) ck = Some path"
proof -
  from download_loop_result [of self env k ck url path retry_count evs]
  obtain evs' where "download_loop self env k ck url path retry_count evs = failure self k evs' \<or>
          download_loop self env k ck url path retry_count evs = commit self k ck path evs'"
    by blast
  then show ?thesis
  proof
    assume "download_loop self env k ck url path retry_count evs = failure self k evs'"
    with assms show ?thesis by (simp add: failure_def)
  next
    assume "download_loop self env k ck url path retry_count evs = commit self k ck path evs'"
    then show ?thesis by (simp add: commit_def)
  qed
qed

lemma export_space_async_success:
  "fst (fst (export_space_async self env sp)) \<Longrightarrow>
   \<exists>p. snd (snd (fst (export_space_async self env sp))) = Some p \<and>
       export_cache (fst (snd (export_space_async self env sp))) (cache_key (key sp) (now env)) = Some p"
  by (auto simp: export_space_async_def Let_def failure_def download_loop_success
      split: option.splits reply.splits if_splits)

lemma export_space_success:
  "fst (fst (export_space self env sp)) \<Longrightarrow>
   \<exists>p. snd (snd (fst (export_space self env sp))) = Some p \<and>
       export_cache (fst (snd (export_space self env sp))) (cache_key (key sp) (now env)) = Some p"
  by (auto simp: export_space_def Let_def failure_def commit_def
      split: option.splits reply.splits fetch.splits if_splits)

lemma same_bucket_cache_key:
  "0 \<le> t \<Longrightarrow> 0 \<le> t' \<Longrightarrow> \<lfloor>t / 86400\<rfloor> = \<lfloor>t' / 86400\<rfloor> \<Longrightarrow> cache_key k t = cache_key k t'"
  by (simp add: cache_key_def py_int_nonneg)

lemma rerun_export_space_async:
  assumes "fst (fst (export_space_async self env sp))"
    and "0 \<le> now env" and "0 \<le> now env'"
    and "\<lfloor>now env / 86400\<rfloor> = \<lfloor>now env' / 86400\<rfloor>"
  shows "export_space_async (fst (snd (export_space_async self env sp))) env' sp =
           ((True, key sp, snd (snd (fst (export_space_async self env sp)))),
            fst (snd (export_space_async self env sp)), [])"
proof -
  from assms(1) obtain p where p: "snd (snd (fst (export_space_async self env sp))) = Some p"
    "export_cache (fst (snd (export_space_async self env sp))) (cache_key (key sp) (now env)) = Some p"
    using export_space_async_success by blast
  have "cache_key (key sp) (now env) = cache_key (key sp) (now env')"
    using assms(2-4) by (rule same_bucket_cache_key)
  with p show ?thesis
    by (simp add: export_space_async_def [of "fst (snd (export_space_async self env sp))"])
qed

lemma rerun_export_space:
  assumes "fst (fst (export_space self env sp))"
    and "0 \<le> now env" and "0 \<le> now env'"
    and "\<lfloor>now env / 86400\<rfloor> = \<lfloor>now env' / 86400\<rfloor>"
  shows "export_space (fst (snd (export_space self env sp))) env' sp =
           ((True, key sp, snd (snd (fst (export_space self env sp)))),
            fst (snd (export_space self env sp)), [])"
proof -
  from assms(1) obtain p where p: "snd (snd (fst (export_space self env sp))) = Some p"
    "export_cache (fst (snd (export_space self env sp))) (cache_key (key sp) (now env)) = Some p"
    using export_space_success by blast
  have "cache_key (key sp) (now env) = cache_key (key sp) (now env')"
    using assms(2-4) by (rule same_bucket_cache_key)
  with p show ?thesis
    by (simp add: export_space_def [of "fst (snd (export_space self env sp))"])
qed


section \<open>The download loop\<close>

lemma incomplete_iff:
  "cl \<noteq> Malformed \<Longrightarrow>
   incomplete cl chunks \<longleftrightarrow> (total_size cl > 0 \<and> int (downloaded chunks) < total_size cl)"
  by (cases cl) (auto simp: incomplete_def total_size_def)

lemma incomplete_not_Malformed: "incomplete cl chunks \<Longrightarrow> cl \<noteq> Malformed"
  by (auto simp: incomplete_def)

lemma download_loop_transient:
  assumes "retry_count < max_retries" and "transient (fetches env retry_count)"
  shows "download_loop self env k ck url path retry_count evs =
           (if retry_count + 1 < max_retries
            then download_loop self env k ck url path (retry_count + 1)
                   (evs @ [Get url, Sleep (5 * 2 ^ (retry_count + 1))])
            else failure self k (evs @ [Get url]))"
proof (cases "fetches env retry_count")
  case NetError
  with assms(1) show ?thesis
    by (subst download_loop.simps) (simp add: Let_def)
next
  case OtherError
  with assms(2) show ?thesis by (simp add: transient_def)
next
  case (Response st cl chunks)
  show ?thesis
  proof (cases "st = 200")
    case False
    with Response assms(1) show ?thesis
      by (subst download_loop.simps) (simp add: Let_def)
  next
    case True
    with Response assms(2) have inc: "incomplete cl chunks"
      by (simp add: transient_def)
    then have nm: "cl \<noteq> Malformed" by (rule incomplete_not_Malformed)
    from inc nm have "total_size cl > 0 \<and> int (downloaded chunks) < total_size cl"
      by (simp add: incomplete_iff)
    with Response True nm assms(1) show ?thesis
      by (subst download_loop.simps) (simp add: Let_def)
  qed
qed

lemma download_loop_clean:
  assumes "retry_count < max_retries" and "clean (fetches env retry_count)"
  shows "download_loop self env k ck url path retry_count evs =
           commit self k ck path (evs @ [Get url])"
proof (cases "fetches env retry_count")
  case NetError
  with assms(2) show ?thesis by (simp add: clean_def)
next
  case OtherError
  with assms(2) show ?thesis by (simp add: clean_def)
next
  case (Response st cl chunks)
  with assms(2) have st: "st = 200" and nm: "cl \<noteq> Malformed" and "\<not> incomplete cl chunks"
    by (simp_all add: clean_def)
  then have "\<not> (total_size cl > 0 \<and> int (downloaded chunks) < total_size cl)"
    by (simp add: incomplete_iff)
  with Response st nm assms(1) show ?thesis
    by (subst download_loop.simps) (auto simp add: Let_def)
qed

lemma export_space_async_miss:
  assumes "export_cache self (cache_key (key sp) (now env)) = None"
    and "export_reply env = Returns (Some url)" and "url \<noteq> []"
  shows "export_space_async self env sp =
           download_loop self env (key sp) (cache_key (key sp) (now env)) url
             (output_file self (key sp) (space_name_of sp)) 0 [ExportRequest (key sp)]"
  using assms by (simp add: export_space_async_def Let_def)

text \<open>
  Claim C1, as stated, fails for \<open>ConfluenceExporter.export_space\<close>: it makes one
  attempt, so a network error on the first attempt ends the task as failed although the
  third attempt would have succeeded.
\<close>

theorem single_attempt_counterexample:
  "transient (third_time_lucky 0) \<and> transient (third_time_lucky 1) \<and> clean (third_time_lucky 2) \<and>
   export_space example_exporter (example_env third_time_lucky) space_A =
     ((False, ''A'', None), example_exporter, [ExportRequest ''A'', Get example_url])"
proof -
  have "export_space example_exporter (example_env third_time_lucky) space_A =
     ((False, ''A'', None), example_exporter, [ExportRequest ''A'', Get example_url])"
    by (simp add: export_space_def Let_def space_A_def example_env_def example_cache_key
        example_exporter_def third_time_lucky_def failure_def example_url_def)
  with third_time_lucky_class show ?thesis by simp
qed

text \<open>
  Claim C1, amended to \<open>ConfluenceAsyncExporter.export_space\<close>. On a cache miss with an
  export URL, when attempts 1 and 2 fail transiently: if attempt 3 is clean the task
  succeeds after exactly three attempts, having slept 10 before the second and 20 before
  the third, and sets and saves the cache entry; if attempt 3 fails transiently too the
  task fails after three attempts, the same two sleeps, and no change of the cache.
\<close>

theorem retry_backoff:
  assumes miss: "export_cache self (cache_key (key sp) (now env)) = None"
    and url: "export_reply env = Returns (Some url)" "url \<noteq> []"
    and t0: "transient (fetches env 0)" and t1: "transient (fetches env 1)"
  shows "(clean (fetches env 2) \<longrightarrow>
            export_space_async self env sp =
              ((True, key sp, Some (output_file self (key sp) (space_name_of sp))),
               self\<lparr>export_cache := (export_cache self)
                  (cache_key (key sp) (now env) \<mapsto> output_file self (key sp) (space_name_of sp))\<rparr>,
               [ExportRequest (key sp), Get url, Sleep 10, Get url, Sleep 20, Get url, SaveCache])) \<and>
         (transient (fetches env 2) \<longrightarrow>
            export_space_async self env sp =
              ((False, key sp, None), self,
               [ExportRequest (key sp), Get url, Sleep 10, Get url, Sleep 20, Get url]))"
proof -
  let ?loop = "download_loop self env (key sp) (cache_key (key sp) (now env)) url
             (output_file self (key sp) (space_name_of sp))"
  have a: "export_space_async self env sp = ?loop 0 [ExportRequest (key sp)]"
    using miss url by (rule export_space_async_miss)
  have b: "?loop 0 [ExportRequest (key sp)] =
           ?loop (Suc 0) [ExportRequest (key sp), Get url, Sleep 10]"
    using download_loop_transient [of 0 env, OF _ t0] by (simp add: max_retries_def)
  have t1': "transient (fetches env (Suc 0))"
    using t1 by simp
  have c: "?loop (Suc 0) [ExportRequest (key sp), Get url, Sleep 10] =
           ?loop (Suc (Suc 0)) [ExportRequest (key sp), Get url, Sleep 10, Get url, Sleep 20]"
    using download_loop_transient [of "Suc 0" env, OF _ t1'] by (simp add: max_retries_def)
  have d: "clean (fetches env 2) \<Longrightarrow>
           ?loop (Suc (Suc 0)) [ExportRequest (key sp), Get url, Sleep 10, Get url, Sleep 20] =
           commit self (key sp) (cache_key (key sp) (now env))
             (output_file self (key sp) (space_name_of sp))
             [ExportRequest (key sp), Get url, Sleep 10, Get url, Sleep 20, Get url]"
    using download_loop_clean [of "Suc (Suc 0)" env]
    by (simp add: max_retries_def numeral_2_eq_2)
  have e: "transient (fetches env 2) \<Longrightarrow>
           ?loop (Suc (Suc 0)) [ExportRequest (key sp), Get url, Sleep 10, Get url, Sleep 20] =
           failure self (key sp)
             [ExportRequest (key sp), Get url, Sleep 10, Get url, Sleep 20, Get url]"
    using download_loop_transient [of "Suc (Suc 0)" env]
    by (simp add: max_retries_def numeral_2_eq_2)
  show ?thesis
    using d e by (simp add: a b c commit_def failure_def)
qed

theorem retry_backoff_witness:
  "export_space_async example_exporter (example_env third_time_lucky) space_A =
     ((True, ''A'', Some example_path),
      example_exporter\<lparr>export_cache := [''A_20396'' \<mapsto> example_path]\<rparr>,
      [ExportRequest ''A'', Get example_url, Sleep 10, Get example_url, Sleep 20,
       Get example_url, SaveCache]) \<and>
   export_space_async example_exporter (example_env always_short) space_A =
     ((False, ''A'', None), example_exporter,
      [ExportRequest ''A'', Get example_url, Sleep 10, Get example_url, Sleep 20,
       Get example_url])"
proof -
  have k: "key space_A = ''A''" "space_name_of space_A = ''Alpha''"
    by (simp_all add: space_A_def space_name_of_def)
  have u: "example_url \<noteq> []" by (simp add: example_url_def)
  have m: "export_cache example_exporter ''A_20396'' = None"
    by (simp add: example_exporter_def)
  have 1: "export_space_async example_exporter (example_env third_time_lucky) space_A =
     ((True, ''A'', Some example_path),
      example_exporter\<lparr>export_cache := [''A_20396'' \<mapsto> example_path]\<rparr>,
      [ExportRequest ''A'', Get example_url, Sleep 10, Get example_url, Sleep 20,
       Get example_url, SaveCache])"
    using retry_backoff [of example_exporter space_A "example_env third_time_lucky" example_url]
      third_time_lucky_class u m
    by (simp add: k example_env_def example_cache_key example_output_file)
       (simp add: example_exporter_def)
  have 2: "export_space_async example_exporter (example_env always_short) space_A =
     ((False, ''A'', None), example_exporter,
      [ExportRequest ''A'', Get example_url, Sleep 10, Get example_url, Sleep 20,
       Get example_url])"
    using retry_backoff [of example_exporter space_A "example_env always_short" example_url]
      always_short_class u m
    by (simp add: k example_env_def example_cache_key example_output_file)
  from 1 2 show ?thesis by (rule conjI)
qed

text \<open>
  Claim C2, as stated, fails for \<open>ConfluenceExporter.export_space\<close>: it never reads the
  \<open>content-length\<close> header, so a response that declares 1000 bytes and delivers 500 is
  written, cached and returned as a success.
\<close>

theorem unchecked_length_counterexample:
  "fetches (example_env always_short) 0 = Response 200 (Size 1000) [500] \<and>
   export_space example_exporter (example_env always_short) space_A =
     ((True, ''A'', Some example_path),
      example_exporter\<lparr>export_cache := [''A_20396'' \<mapsto> example_path]\<rparr>,
      [ExportRequest ''A'', Get example_url, SaveCache])"
proof -
  have "export_space example_exporter (example_env always_short) space_A =
     ((True, ''A'', Some example_path),
      example_exporter\<lparr>export_cache := [''A_20396'' \<mapsto> example_path]\<rparr>,
      [ExportRequest ''A'', Get example_url, SaveCache])"
    by (simp add: export_space_def Let_def example_eval always_short_def commit_def)
  then show ?thesis by (simp add: example_env_def always_short_def)
qed

text \<open>
  Claim C2, amended to \<open>ConfluenceAsyncExporter.export_space\<close>. A pass of the loop whose
  response declares a size that the body falls short of never commits: it sleeps and
  goes on to the next attempt while one remains, and otherwise ends the task as failed.
\<close>

theorem short_body_is_attempt_failure:
  assumes "retry_count < max_retries"
    and "fetches env retry_count = Response st (Size n) chunks"
    and "int (downloaded chunks) < n"
  shows "download_loop self env k ck url path retry_count evs =
           (if retry_count + 1 < max_retries
            then download_loop self env k ck url path (retry_count + 1)
                   (evs @ [Get url, Sleep (5 * 2 ^ (retry_count + 1))])
            else failure self k (evs @ [Get url]))"
proof -
  have "transient (fetches env retry_count)"
    using assms(2,3) by (simp add: transient_def incomplete_def)
  with assms(1) show ?thesis by (rule download_loop_transient)
qed

theorem short_body_is_attempt_failure_witness:
  "fetches (example_env always_short) 2 = Response 200 (Size 1000) [500] \<and>
   int (downloaded [500]) < 1000 \<and>
   download_loop example_exporter (example_env always_short) ''A'' ''A_20396'' example_url
     example_path 2 [] = ((False, ''A'', None), example_exporter, [Get example_url]) \<and>
   download_loop example_exporter (example_env always_short) ''A'' ''A_20396'' example_url
     example_path 1 [] =
   download_loop example_exporter (example_env always_short) ''A'' ''A_20396'' example_url
     example_path 2 [Get example_url, Sleep 20]"
proof -
  have f: "fetches (example_env always_short) i = Response 200 (Size 1000) [500]" for i
    by (simp add: example_env_def always_short_def)
  have d: "int (downloaded [500]) < 1000"
    by (simp add: downloaded_def)
  have 2: "download_loop example_exporter (example_env always_short) ''A'' ''A_20396'' example_url
     example_path 2 [] = ((False, ''A'', None), example_exporter, [Get example_url])"
    using short_body_is_attempt_failure [of 2 "example_env always_short" 200 1000 "[500]"
        example_exporter "''A''" "''A_20396''" example_url example_path "[]"] f d
    by (simp add: max_retries_def failure_def)
  have 1: "download_loop example_exporter (example_env always_short) ''A'' ''A_20396'' example_url
     example_path 1 [] =
   download_loop example_exporter (example_env always_short) ''A'' ''A_20396'' example_url
     example_path 2 [Get example_url, Sleep 20]"
    using short_body_is_attempt_failure [of 1 "example_env always_short" 200 1000 "[500]"
        example_exporter "''A''" "''A_20396''" example_url example_path "[]"] f d
    by (simp add: max_retries_def numeral_2_eq_2)
  from f d 2 1 show ?thesis by simp
qed


section \<open>The two exporters compared\<close>

lemma export_space_async_all_transient:
  assumes miss: "export_cache self (cache_key (key sp) (now env)) = None"
    and url: "export_reply env = Returns (Some url)" "url \<noteq> []"
    and t: "\<And>i. transient (fetches env i)"
  shows "fst (export_space_async self env sp) = (False, key sp, None)"
proof -
  let ?loop = "download_loop self env (key sp) (cache_key (key sp) (now env)) url
             (output_file self (key sp) (space_name_of sp))"
  have a: "export_space_async self env sp = ?loop 0 [ExportRequest (key sp)]"
    using miss url by (rule export_space_async_miss)
  have s: "?loop rc evs = (if rc + 1 < max_retries then ?loop (rc + 1)
             (evs @ [Get url, Sleep (5 * 2 ^ (rc + 1))]) else failure self (key sp) (evs @ [Get url]))"
    if "rc < max_retries" for rc evs
    using that t by (rule download_loop_transient)
  show ?thesis
    by (simp add: a s max_retries_def failure_def)
qed

text \<open>
  Claim C4, as stated, fails: for the same space, cache and responses (every attempt a
  200 response that declares 1000 bytes and delivers 500) the thread-pool exporter
  returns success with a path and the asynchronous one returns failure.
\<close>

theorem exporters_differ_counterexample:
  "fst (export_space example_exporter (example_env always_short) space_A) =
     (True, ''A'', Some example_path) \<and>
   fst (export_space_async example_exporter (example_env always_short) space_A) =
     (False, ''A'', None)"
proof -
  have 1: "fst (export_space example_exporter (example_env always_short) space_A) =
     (True, ''A'', Some example_path)"
    by (simp add: export_space_def Let_def example_eval always_short_def commit_def)
  have "fst (export_space_async example_exporter (example_env always_short) space_A) =
     (False, key space_A, None)"
  proof (rule export_space_async_all_transient)
    show "export_cache example_exporter (cache_key (key space_A) (now (example_env always_short))) = None"
      by (simp add: example_exporter_def)
    show "export_reply (example_env always_short) = Returns (Some example_url)"
      by (simp add: example_env_def)
    show "example_url \<noteq> []" by (simp add: example_url_def)
    show "transient (fetches (example_env always_short) i)" for i
      by (simp add: example_env_def always_short_class)
  qed
  then have 2: "fst (export_space_async example_exporter (example_env always_short) space_A) =
     (False, ''A'', None)"
    by (simp add: space_A_def)
  from 1 2 show ?thesis by (rule conjI)
qed

text \<open>
  Claim C4, amended. The two exporters give the same outcome, the same cache and the same
  effects whenever the cache holds the fingerprint, or the export request raises or
  returns no URL, or the first download attempt raises an exception that is not a
  network error, or the first download attempt is clean.
\<close>

theorem exporters_agree:
  assumes "export_cache self (cache_key (key sp) (now env)) \<noteq> None \<or>
           export_reply env = Raises \<or> export_reply env = Returns None \<or>
           export_reply env = Returns (Some []) \<or>
           fetches env 0 = OtherError \<or> clean (fetches env 0)"
  shows "export_space self env sp = export_space_async self env sp"
proof (cases "export_cache self (cache_key (key sp) (now env))")
  case (Some p)
  then show ?thesis by (simp add: export_space_def export_space_async_def)
next
  case None
  note miss = this
  show ?thesis
  proof (cases "export_reply env")
    case Raises
    with miss show ?thesis
      by (simp add: export_space_def export_space_async_def Let_def)
  next
    case (Returns u)
    show ?thesis
    proof (cases u)
      case None
      with miss Returns show ?thesis
        by (simp add: export_space_def export_space_async_def Let_def)
    next
      case (Some url)
      show ?thesis
      proof (cases "url = []")
        case True
        with miss Returns Some show ?thesis
          by (simp add: export_space_def export_space_async_def Let_def)
      next
        case False
        let ?loop = "download_loop self env (key sp) (cache_key (key sp) (now env)) url
             (output_file self (key sp) (space_name_of sp))"
        have url: "export_reply env = Returns (Some url)"
          using Returns Some by simp
        have a: "export_space_async self env sp = ?loop 0 [ExportRequest (key sp)]"
          using miss url False by (rule export_space_async_miss)
        from assms miss url False
        have "fetches env 0 = OtherError \<or> clean (fetches env 0)" by simp
        then show ?thesis
        proof
          assume o: "fetches env 0 = OtherError"
          then have "?loop 0 [ExportRequest (key sp)] =
                 failure self (key sp) [ExportRequest (key sp), Get url]"
            by (subst download_loop.simps) (simp add: max_retries_def Let_def)
          with o miss url False show ?thesis
            by (simp add: a export_space_def Let_def)
        next
          assume c: "clean (fetches env 0)"
          then obtain st cl chunks where r: "fetches env 0 = Response st cl chunks"
            by (cases "fetches env 0") (auto simp: clean_def)
          have "?loop 0 [ExportRequest (key sp)] =
              commit self (key sp) (cache_key (key sp) (now env))
                (output_file self (key sp) (space_name_of sp)) [ExportRequest (key sp), Get url]"
            using download_loop_clean [of 0 env, OF _ c] by (simp add: max_retries_def)
          with r miss url False show ?thesis
            by (simp add: a export_space_def Let_def)
        qed
      qed
    qed
  qed
qed

theorem exporters_agree_witness:
  "clean (fetches (example_env first_time_ok) 0) \<and>
   export_space example_exporter (example_env first_time_ok) space_A =
     export_space_async example_exporter (example_env first_time_ok) space_A \<and>
   export_space example_exporter (example_env first_time_ok) space_A =
     ((True, ''A'', Some example_path),
      example_exporter\<lparr>export_cache := [''A_20396'' \<mapsto> example_path]\<rparr>,
      [ExportRequest ''A'', Get example_url, SaveCache])"
proof -
  have c: "clean (fetches (example_env first_time_ok) 0)"
    by (simp add: example_env_def first_time_ok_def clean_def incomplete_def downloaded_def)
  have e: "export_space example_exporter (example_env first_time_ok) space_A =
     ((True, ''A'', Some example_path),
      example_exporter\<lparr>export_cache := [''A_20396'' \<mapsto> example_path]\<rparr>,
      [ExportRequest ''A'', Get example_url, SaveCache])"
    by (simp add: export_space_def Let_def example_eval first_time_ok_def commit_def)
  from c e exporters_agree [of example_exporter space_A "example_env first_time_ok"]
  show ?thesis by simp
qed


section \<open>Work discovery\<close>

text \<open>
  Claim C6. With a non-empty allow-list the filter returns the discovered spaces whose
  key is in the list, in the order of discovery, whatever the two inclusion flags and
  whatever the type and status of the spaces.
\<close>

theorem allow_list_precedence:
  assumes "ks \<noteq> []"
  shows "spaces_to_export include_personal include_archived (Some ks) all_spaces =
           filter (\<lambda>s. key s \<in> set ks) all_spaces"
  using assms by (simp add: spaces_to_export_def allow_list_def)

theorem allow_list_precedence_witness:
  "[''B'', ''C''] \<noteq> [] \<and>
   spaces_to_export False False (Some [''B'', ''C'']) [space_A, space_B, space_C] = [space_B, space_C] \<and>
   spaces_to_export False False None [space_A, space_B, space_C] = [space_A]"
proof -
  have "spaces_to_export False False None [space_A, space_B, space_C] = [space_A]"
    by (simp add: spaces_to_export_def allow_list_def is_personal_def is_archived_def
        lower_def lower_char_def space_A_def space_B_def space_C_def)
  then show ?thesis
    using allow_list_precedence [of "[''B'', ''C'']" False False "[space_A, space_B, space_C]"]
    by (simp add: space_A_def space_B_def space_C_def)
qed


section \<open>The run\<close>

lemma download_loop_key:
  "fst (snd (fst (download_loop self env k ck url path retry_count evs))) = k"
proof (induction self env k ck url path retry_count evs rule: download_loop.induct)
  case (1 self env k ck url path retry_count evs)
  show ?case
    apply (subst download_loop.simps)
    using "1.IH"
    apply (auto simp: Let_def failure_def commit_def split: fetch.splits)
    done
qed

lemma download_loop_requests:
  "ExportRequest x \<in> set (snd (snd (download_loop self env k ck url path retry_count evs)))
   \<Longrightarrow> ExportRequest x \<in> set evs"
proof (induction self env k ck url path retry_count evs rule: download_loop.induct)
  case (1 self env k ck url path retry_count evs)
  from "1.prems" show ?case
    apply (subst (asm) download_loop.simps)
    using "1.IH"
    apply (auto simp: Let_def failure_def commit_def split: fetch.splits if_splits)
    done
qed

lemma export_space_key: "fst (snd (fst (export_space self env sp))) = key sp"
  by (auto simp: export_space_def Let_def failure_def commit_def
      split: option.splits reply.splits fetch.splits)

lemma export_space_requests:
  "ExportRequest x \<in> set (snd (snd (export_space self env sp))) \<Longrightarrow> x = key sp"
  by (auto simp: export_space_def Let_def failure_def commit_def
      split: option.splits reply.splits fetch.splits if_splits)

lemma export_space_async_key: "fst (snd (fst (export_space_async self env sp))) = key sp"
  by (auto simp: export_space_async_def Let_def failure_def download_loop_key
      split: option.splits reply.splits)

lemma export_space_async_requests:
  "ExportRequest x \<in> set (snd (snd (export_space_async self env sp))) \<Longrightarrow> x = key sp"
  by (auto simp: export_space_async_def Let_def failure_def
      split: option.splits reply.splits if_splits dest: download_loop_requests)

lemma run_tasks_spaces: "map fst (fst (run_tasks task self world sps)) = sps"
proof (induction sps arbitrary: self)
  case Nil
  then show ?case by simp
next
  case (Cons a sps)
  obtain res self1 evs1 where t: "task self (world a) a = (res, self1, evs1)"
    by (cases "task self (world a) a") auto
  obtain results self2 evs2 where rr: "run_tasks task self1 world sps = (results, self2, evs2)"
    by (cases "run_tasks task self1 world sps") auto
  from Cons.IH [of self1] rr have "map fst results = sps" by simp
  with t rr show ?case by simp
qed

lemma run_tasks_returned:
  assumes k: "\<And>self env sp. fst (snd (fst (task self env sp))) = key sp"
  shows "(sp, r) \<in> set (fst (run_tasks task self world sps)) \<Longrightarrow>
         \<exists>b p. r = Returned (b, key sp, p)"
proof (induction sps arbitrary: self)
  case Nil
  then show ?case by simp
next
  case (Cons a sps)
  obtain res self1 evs1 where t: "task self (world a) a = (res, self1, evs1)"
    by (cases "task self (world a) a") auto
  obtain results self2 evs2 where rr: "run_tasks task self1 world sps = (results, self2, evs2)"
    by (cases "run_tasks task self1 world sps") auto
  from k [of self "world a" a] t have ka: "fst (snd res) = key a" by simp
  from Cons.prems t rr have "(sp, r) = (a, Returned res) \<or> (sp, r) \<in> set results"
    by simp
  then show ?case
  proof
    assume "(sp, r) = (a, Returned res)"
    with ka show ?thesis by (cases res) auto
  next
    assume "(sp, r) \<in> set results"
    with rr have "(sp, r) \<in> set (fst (run_tasks task self1 world sps))" by simp
    then show ?thesis by (rule Cons.IH)
  qed
qed

lemma run_tasks_requests:
  assumes q: "\<And>self env sp x. ExportRequest x \<in> set (snd (snd (task self env sp))) \<Longrightarrow> x = key sp"
  shows "ExportRequest x \<in> set (snd (snd (run_tasks task self world sps))) \<Longrightarrow>
         x \<in> key ` set sps"
proof (induction sps arbitrary: self)
  case Nil
  then show ?case by simp
next
  case (Cons a sps)
  obtain res self1 evs1 where t: "task self (world a) a = (res, self1, evs1)"
    by (cases "task self (world a) a") auto
  obtain results self2 evs2 where rr: "run_tasks task self1 world sps = (results, self2, evs2)"
    by (cases "run_tasks task self1 world sps") auto
  from Cons.prems t rr have "ExportRequest x \<in> set evs1 \<or> ExportRequest x \<in> set evs2"
    by simp
  then show ?case
  proof
    assume "ExportRequest x \<in> set evs1"
    with t have "ExportRequest x \<in> set (snd (snd (task self (world a) a)))" by simp
    then have "x = key a" by (rule q)
    then show ?thesis by simp
  next
    assume "ExportRequest x \<in> set evs2"
    with rr have "ExportRequest x \<in> set (snd (snd (run_tasks task self1 world sps)))" by simp
    then have "x \<in> key ` set sps" by (rule Cons.IH)
    then show ?thesis by auto
  qed
qed

lemma run_tasks_no_raise: "(sp, Raised) \<notin> set (fst (run_tasks task self world sps))"
proof (induction sps arbitrary: self)
  case Nil
  then show ?case by simp
next
  case (Cons a sps)
  obtain res self1 evs1 where t: "task self (world a) a = (res, self1, evs1)"
    by (cases "task self (world a) a") auto
  obtain results self2 evs2 where rr: "run_tasks task self1 world sps = (results, self2, evs2)"
    by (cases "run_tasks task self1 world sps") auto
  from Cons.IH [of self1] rr have "(sp, Raised) \<notin> set results" by simp
  with t rr show ?case by simp
qed

lemma aggregate_failed_keys:
  "\<forall>(sp, r) \<in> set rs. \<exists>b p. r = Returned (b, key sp, p) \<Longrightarrow>
   set (snd (aggregate rs (n, fs))) \<subseteq> set fs \<union> key ` fst ` set rs"
proof (induction rs "(n, fs)" arbitrary: n fs rule: aggregate.induct)
  case 1
  then show ?case by simp
next
  case (2 sp success space_key file_path rest successful_exports failed_spaces)
  then show ?case by (cases success) (auto 4 3)
next
  case (3 sp rest successful_exports failed_spaces)
  then show ?case by auto
qed

lemma aggregate_async_failed_keys:
  "\<forall>(sp, r) \<in> set rs. \<exists>b p. r = Returned (b, key sp, p) \<Longrightarrow>
   set (snd (aggregate_async (map snd rs) (n, fs))) \<subseteq> set fs \<union> key ` fst ` set rs"
proof (induction rs arbitrary: n fs)
  case Nil
  then show ?case by simp
next
  case (Cons a rs)
  obtain sp r where a: "a = (sp, r)" by (cases a) auto
  from Cons.prems a obtain b p where r: "r = Returned (b, key sp, p)" by auto
  from Cons.prems have rest: "\<forall>(sp, r) \<in> set rs. \<exists>b p. r = Returned (b, key sp, p)" by simp
  show ?case
  proof (cases b)
    case True
    with a r Cons.IH [OF rest, of "n + 1" fs] show ?thesis by auto
  next
    case False
    with a r Cons.IH [OF rest, of n "fs @ [key sp]"] show ?thesis by auto
  qed
qed

lemma aggregate_count:
  "fst (aggregate rs (n, fs)) + length (snd (aggregate rs (n, fs))) = n + length fs + length rs"
  by (induction rs "(n, fs)" arbitrary: n fs rule: aggregate.induct) auto

lemma aggregate_async_count:
  "fst (aggregate_async rs (n, fs)) + length (snd (aggregate_async rs (n, fs))) =
     n + length fs + length (filter (\<lambda>r. r \<noteq> Raised) rs)"
  by (induction rs "(n, fs)" arbitrary: n fs rule: aggregate_async.induct) auto

lemma spaces_to_export_subset:
  "set (spaces_to_export include_personal include_archived specific_spaces all_spaces)
     \<subseteq> set all_spaces"
  by (auto simp: spaces_to_export_def)

lemma export_all_spaces_failed_keys:
  "set (snd (fst (export_all_spaces self world ip ia specific all_spaces))) \<subseteq> key ` set all_spaces"
proof -
  let ?todo = "spaces_to_export ip ia specific all_spaces"
  obtain results self1 evs where rr: "run_tasks export_space self world ?todo = (results, self1, evs)"
    by (cases "run_tasks export_space self world ?todo") auto
  have ret: "\<forall>(sp, r) \<in> set results. \<exists>b p. r = Returned (b, key sp, p)"
    using run_tasks_returned [of export_space _ _ self world ?todo, OF export_space_key] rr by auto
  have "map fst results = ?todo"
    using run_tasks_spaces [of export_space self world ?todo] rr by simp
  then have "fst ` set results = set ?todo"
    by (metis set_map)
  with spaces_to_export_subset have sub: "key ` fst ` set results \<subseteq> key ` set all_spaces"
    by blast
  from aggregate_failed_keys [OF ret, of 0 "[]"] sub
  have "set (snd (aggregate results (0, []))) \<subseteq> key ` set all_spaces" by auto
  with rr show ?thesis
    by (simp add: export_all_spaces_def Let_def)
qed

lemma export_all_spaces_async_failed_keys:
  "set (snd (fst (export_all_spaces_async self world ip ia specific all_spaces)))
     \<subseteq> key ` set all_spaces"
proof -
  let ?todo = "spaces_to_export ip ia specific all_spaces"
  obtain results self1 evs
    where rr: "run_tasks export_space_async self world ?todo = (results, self1, evs)"
    by (cases "run_tasks export_space_async self world ?todo") auto
  have ret: "\<forall>(sp, r) \<in> set results. \<exists>b p. r = Returned (b, key sp, p)"
    using run_tasks_returned [of export_space_async _ _ self world ?todo, OF export_space_async_key]
      rr by auto
  have "map fst results = ?todo"
    using run_tasks_spaces [of export_space_async self world ?todo] rr by simp
  then have "fst ` set results = set ?todo"
    by (metis set_map)
  with spaces_to_export_subset have sub: "key ` fst ` set results \<subseteq> key ` set all_spaces"
    by blast
  from aggregate_async_failed_keys [OF ret, of 0 "[]"] sub
  have "set (snd (aggregate_async (map snd results) (0, []))) \<subseteq> key ` set all_spaces" by auto
  with rr show ?thesis
    by (simp add: export_all_spaces_async_def Let_def)
qed

lemma export_all_spaces_requests:
  "ExportRequest x \<in> set (snd (snd (export_all_spaces self world ip ia specific all_spaces)))
   \<Longrightarrow> x \<in> key ` set all_spaces"
proof -
  let ?todo = "spaces_to_export ip ia specific all_spaces"
  assume a: "ExportRequest x \<in> set (snd (snd (export_all_spaces self world ip ia specific all_spaces)))"
  obtain results self1 evs where rr: "run_tasks export_space self world ?todo = (results, self1, evs)"
    by (cases "run_tasks export_space self world ?todo") auto
  from a rr have "ExportRequest x \<in> set evs"
    by (simp add: export_all_spaces_def Let_def split: if_splits)
  with rr have "ExportRequest x \<in> set (snd (snd (run_tasks export_space self world ?todo)))"
    by simp
  then have "x \<in> key ` set ?todo"
    using run_tasks_requests [of export_space x self world ?todo] export_space_requests
    by blast
  with spaces_to_export_subset show ?thesis by blast
qed

lemma export_all_spaces_async_requests:
  "ExportRequest x \<in> set (snd (snd (export_all_spaces_async self world ip ia specific all_spaces)))
   \<Longrightarrow> x \<in> key ` set all_spaces"
proof -
  let ?todo = "spaces_to_export ip ia specific all_spaces"
  assume a: "ExportRequest x \<in>
    set (snd (snd (export_all_spaces_async self world ip ia specific all_spaces)))"
  obtain results self1 evs
    where rr: "run_tasks export_space_async self world ?todo = (results, self1, evs)"
    by (cases "run_tasks export_space_async self world ?todo") auto
  from a rr have "ExportRequest x \<in> set evs"
    by (simp add: export_all_spaces_async_def Let_def split: if_splits)
  with rr have "ExportRequest x \<in> set (snd (snd (run_tasks export_space_async self world ?todo)))"
    by simp
  then have "x \<in> key ` set ?todo"
    using run_tasks_requests [of export_space_async x self world ?todo]
      export_space_async_requests
    by blast
  with spaces_to_export_subset show ?thesis by blast
qed

text \<open>
  In the model every task returns, and then both exporters account for every item of
  the filtered work set.
\<close>

lemma export_all_spaces_count:
  "fst (fst (export_all_spaces self world ip ia specific all_spaces)) +
   length (snd (fst (export_all_spaces self world ip ia specific all_spaces))) =
   length (spaces_to_export ip ia specific all_spaces)"
proof -
  let ?todo = "spaces_to_export ip ia specific all_spaces"
  obtain results self1 evs where rr: "run_tasks export_space self world ?todo = (results, self1, evs)"
    by (cases "run_tasks export_space self world ?todo") auto
  have "map fst results = ?todo"
    using run_tasks_spaces [of export_space self world ?todo] rr by simp
  then have "length results = length ?todo"
    by (metis length_map)
  with aggregate_count [of results 0 "[]"] rr show ?thesis
    by (simp add: export_all_spaces_def Let_def)
qed

lemma export_all_spaces_async_count:
  "fst (fst (export_all_spaces_async self world ip ia specific all_spaces)) +
   length (snd (fst (export_all_spaces_async self world ip ia specific all_spaces))) =
   length (spaces_to_export ip ia specific all_spaces)"
proof -
  let ?todo = "spaces_to_export ip ia specific all_spaces"
  obtain results self1 evs
    where rr: "run_tasks export_space_async self world ?todo = (results, self1, evs)"
    by (cases "run_tasks export_space_async self world ?todo") auto
  have "map fst results = ?todo"
    using run_tasks_spaces [of export_space_async self world ?todo] rr by simp
  then have len: "length results = length ?todo"
    by (metis length_map)
  have "(sp, Raised) \<notin> set results" for sp
    using run_tasks_no_raise [of sp export_space_async self world ?todo] rr by simp
  then have "filter (\<lambda>r. r \<noteq> Raised) (map snd results) = map snd results"
    by (auto simp: filter_id_conv)
  with aggregate_async_count [of "map snd results" 0 "[]"] len rr show ?thesis
    by (simp add: export_all_spaces_async_def Let_def)
qed

lemma nothing_to_export:
  assumes "ks \<noteq> []" and "set ks \<inter> key ` set all_spaces = {}"
  shows "spaces_to_export ip ia (Some ks) all_spaces = []"
  using assms by (auto simp: spaces_to_export_def allow_list_def filter_empty_conv)

text \<open>
  Claim C10. With a non-empty allow-list, a key that no discovered space has is never
  requested and never listed as failed, in either exporter; and when no allow-listed
  key is discovered the run returns 0 successes and no failures without any effect, and
  the exit code is 0.
\<close>

theorem unknown_keys_skipped:
  assumes "ks \<noteq> []" and "k \<notin> key ` set all_spaces"
  shows "k \<notin> set (snd (fst (export_all_spaces self world ip ia (Some ks) all_spaces))) \<and>
         ExportRequest k \<notin> set (snd (snd (export_all_spaces self world ip ia (Some ks) all_spaces))) \<and>
         k \<notin> set (snd (fst (export_all_spaces_async self world ip ia (Some ks) all_spaces))) \<and>
         ExportRequest k \<notin>
           set (snd (snd (export_all_spaces_async self world ip ia (Some ks) all_spaces))) \<and>
         (set ks \<inter> key ` set all_spaces = {} \<longrightarrow>
            export_all_spaces self world ip ia (Some ks) all_spaces = ((0, []), self, []) \<and>
            export_all_spaces_async self world ip ia (Some ks) all_spaces = ((0, []), self, []) \<and>
            main self world (Some ks) ip ia all_spaces = 0 \<and>
            main_async self world (Some ks) ip ia all_spaces = 0)"
proof (intro conjI impI)
  show "k \<notin> set (snd (fst (export_all_spaces self world ip ia (Some ks) all_spaces)))"
    using export_all_spaces_failed_keys assms(2) by blast
  show "ExportRequest k \<notin> set (snd (snd (export_all_spaces self world ip ia (Some ks) all_spaces)))"
    using export_all_spaces_requests assms(2) by blast
  show "k \<notin> set (snd (fst (export_all_spaces_async self world ip ia (Some ks) all_spaces)))"
    using export_all_spaces_async_failed_keys assms(2) by blast
  show "ExportRequest k \<notin>
           set (snd (snd (export_all_spaces_async self world ip ia (Some ks) all_spaces)))"
    using export_all_spaces_async_requests assms(2) by blast
next
  assume d: "set ks \<inter> key ` set all_spaces = {}"
  have e: "spaces_to_export a b (Some ks) all_spaces = []" for a b
    using assms(1) d by (rule nothing_to_export)
  show "export_all_spaces self world ip ia (Some ks) all_spaces = ((0, []), self, [])"
    by (simp add: export_all_spaces_def e)
  show "export_all_spaces_async self world ip ia (Some ks) all_spaces = ((0, []), self, [])"
    by (simp add: export_all_spaces_async_def e)
  show "main self world (Some ks) ip ia all_spaces = 0"
    using assms(1) by (simp add: main_def exit_code_def allow_list_def export_all_spaces_def e)
  show "main_async self world (Some ks) ip ia all_spaces = 0"
    using assms(1)
    by (simp add: main_async_def exit_code_def allow_list_def export_all_spaces_async_def e)
qed

theorem unknown_keys_skipped_witness:
  "[''Z''] \<noteq> [] \<and> ''Z'' \<notin> key ` set [space_A, space_B, space_C] \<and>
   set [''Z''] \<inter> key ` set [space_A, space_B, space_C] = {} \<and>
   export_all_spaces example_exporter (\<lambda>sp. example_env third_time_lucky) False False
     (Some [''Z'']) [space_A, space_B, space_C] = ((0, []), example_exporter, []) \<and>
   export_all_spaces_async example_exporter (\<lambda>sp. example_env third_time_lucky) False False
     (Some [''Z'']) [space_A, space_B, space_C] = ((0, []), example_exporter, []) \<and>
   main example_exporter (\<lambda>sp. example_env third_time_lucky) (Some [''Z'']) False False
     [space_A, space_B, space_C] = 0 \<and>
   main_async example_exporter (\<lambda>sp. example_env third_time_lucky) (Some [''Z'']) False False
     [space_A, space_B, space_C] = 0"
  using unknown_keys_skipped [of "[''Z'']" "''Z''" "[space_A, space_B, space_C]" example_exporter
      "\<lambda>sp. example_env third_time_lucky" False False]
  by (simp add: space_A_def space_B_def space_C_def)

text \<open>
  Claim C3 fails in \<open>ConfluenceAsyncExporter.export_all_spaces\<close>: a task that raises is
  logged and dropped, so of two items one success is counted and no failure listed,
  where the loop of \<open>ConfluenceExporter.export_all_spaces\<close> lists the key of the space.
\<close>

theorem raised_task_is_dropped:
  "aggregate_async [Returned (True, ''A'', Some example_path), Raised] (0, []) = (1, []) \<and>
   aggregate [(space_A, Returned (True, ''A'', Some example_path)), (space_B, Raised)] (0, []) =
     (1, [''B''])"
  by (simp add: space_B_def)

end
